theory Spec2Isabelle
  imports Main "HOL-Library.Sublist" "HOL-Library.Code_Target_Nat"
begin

section \<open>Python string primitives used by move\_tests.py\<close>

text \<open>
  A Python \<open>str\<close> is the list of its Unicode code points. A file read with
  \<open>readlines()\<close> is a list of lines, each keeping its terminating newline.
  \<open>ascii\<close> gives the code points of a literal written in ASCII.
\<close>

type_synonym str = "nat list"

definition ascii :: "string \<Rightarrow> str" where
  "ascii s = map of_char s"

definition NL :: nat where
  "NL = 0x0A"

text \<open>A line of ASCII text with its newline.\<close>

definition ln :: "string \<Rightarrow> str" where
  "ln s = ascii s @ [NL]"

text \<open>\<open>line.startswith(p)\<close>.\<close>

fun startswith :: "str \<Rightarrow> str \<Rightarrow> bool" where
  "startswith s [] = True"
| "startswith [] (p # ps) = False"
| "startswith (c # cs) (p # ps) = (c = p \<and> startswith cs ps)"

text \<open>\<open>needle in hay\<close> on strings: substring containment.\<close>

fun py_in :: "str \<Rightarrow> str \<Rightarrow> bool" where
  "py_in needle [] = (needle = [])"
| "py_in needle (c # cs) = (startswith (c # cs) needle \<or> py_in needle cs)"

text \<open>\<open>line.count(ch)\<close> for a one-character argument.\<close>

definition count_char :: "str \<Rightarrow> nat \<Rightarrow> int" where
  "count_char line ch = int (length (filter (\<lambda>c. c = ch) line))"

text \<open>
  The characters that \<open>str.strip()\<close> removes when called without an argument: the code
  points for which \<open>str.isspace()\<close> holds.
\<close>

definition is_space :: "nat \<Rightarrow> bool" where
  "is_space c = (c \<in> set [0x09, 0x0A, 0x0B, 0x0C, 0x0D, 0x1C, 0x1D, 0x1E, 0x1F, 0x20,
                           0x85, 0xA0, 0x1680,
                           0x2000, 0x2001, 0x2002, 0x2003, 0x2004, 0x2005, 0x2006, 0x2007,
                           0x2008, 0x2009, 0x200A,
                           0x2028, 0x2029, 0x202F, 0x205F, 0x3000])"

text \<open>\<open>line.count('{') - line.count('}')\<close>.\<close>

definition brace_delta :: "str \<Rightarrow> int" where
  "brace_delta line = count_char line (of_char CHR ''{'') - count_char line (of_char CHR ''}'')"

text \<open>\<open>line.strip() == ''\<close>.\<close>

definition is_blank :: "str \<Rightarrow> bool" where
  "is_blank line = list_all is_space line"

text \<open>The slice \<open>xs[a:b]\<close> for indices \<open>0 \<le> a\<close>, \<open>0 \<le> b\<close>.\<close>

definition slice :: "'a list \<Rightarrow> nat \<Rightarrow> nat \<Rightarrow> 'a list" where
  "slice xs a b = take (b - a) (drop a xs)"

definition cfg_marker :: str where
  "cfg_marker = ascii ''#[cfg(test)]''"

definition mod_tests :: str where
  "mod_tests = ascii ''mod tests''"

definition test_marker :: str where
  "test_marker = ascii ''#[test]''"

section \<open>extract\_test\_module\<close>

text \<open>
  The first loop of \<open>extract_test_module\<close>: \<open>enumerate(lines)\<close> is the index \<open>i\<close>
  together with the suffix still to visit. \<open>test_start == -1\<close> is \<open>None\<close>.
\<close>

fun find_start_from :: "str list \<Rightarrow> nat \<Rightarrow> str list \<Rightarrow> nat option" where
  "find_start_from lines i [] = None"
| "find_start_from lines i (line # rest) =
     (if py_in cfg_marker line \<and>
         ((i + 1 < length lines \<and> py_in mod_tests (lines ! (i + 1))) \<or>
          (i + 2 < length lines \<and> py_in mod_tests (lines ! (i + 2))))
      then Some i
      else find_start_from lines (i + 1) rest)"

definition find_test_start :: "str list \<Rightarrow> nat option" where
  "find_test_start lines = find_start_from lines 0 lines"

text \<open>The three loop variables of the brace-counting loop.\<close>

record scan_state =
  brace_count :: int
  test_end :: nat
  in_test_module :: bool

text \<open>
  The second loop, \<open>for i in range(test_start, len(lines))\<close>, over the lines still to
  visit. The \<open>break\<close> is the branch that returns without a recursive call.
\<close>

fun scan_block :: "nat \<Rightarrow> str list \<Rightarrow> scan_state \<Rightarrow> scan_state" where
  "scan_block i [] st = st"
| "scan_block i (line # rest) st =
     (if py_in mod_tests line \<and> py_in (ascii ''{'') line
      then scan_block (i + 1) rest
             \<lparr>brace_count = 1, test_end = i, in_test_module = True\<rparr>
      else if in_test_module st
      then (let bc = brace_count st + brace_delta line
            in if bc = 0
               then st\<lparr>brace_count := bc, test_end := i\<rparr>
               else scan_block (i + 1) rest (st\<lparr>brace_count := bc\<rparr>))
      else scan_block (i + 1) rest st)"

definition find_test_end :: "str list \<Rightarrow> nat \<Rightarrow> scan_state" where
  "find_test_end lines test_start =
     scan_block test_start (drop test_start lines)
       \<lparr>brace_count = 0, test_end = test_start, in_test_module = False\<rparr>"

text \<open>
  \<open>while remaining_lines and remaining_lines[-1].strip() == '': remaining_lines.pop()\<close>
\<close>

function pop_blank_tail :: "str list \<Rightarrow> str list" where
  "pop_blank_tail ls =
     (if ls \<noteq> [] \<and> is_blank (last ls) then pop_blank_tail (butlast ls) else ls)"
  by pat_completeness auto
termination
  by (relation "measure length") auto

declare pop_blank_tail.simps [simp del]

text \<open>
  The pure part of \<open>extract_test_module\<close>, on the lines already read: the pair
  \<open>(test_module, remaining_lines)\<close>, with \<open>None\<close> for Python's \<open>None\<close>.
\<close>

definition extract_lines :: "str list \<Rightarrow> str list option \<times> str list" where
  "extract_lines lines =
     (case find_test_start lines of
        None \<Rightarrow> (None, lines)
      | Some test_start \<Rightarrow>
          (let e = test_end (find_test_end lines test_start);
               test_module = slice lines test_start (e + 1);
               remaining_lines = take test_start lines @ drop (e + 1) lines
           in (Some test_module, pop_blank_tail remaining_lines)))"

section \<open>create\_test\_file\<close>

text \<open>
  A path is the list of its segments, as \<open>Path.parts\<close> gives them:
  \<open>src/a/b.rs\<close> is \<open>[ascii ''src'', ascii ''a'', ascii ''b.rs'']\<close>.
\<close>

type_synonym path = "str list"

datatype error = OSError path | ValueError

text \<open>\<open>name.rfind(ch)\<close>, with \<open>None\<close> for \<open>-1\<close>.\<close>

fun rfind_char :: "nat \<Rightarrow> str \<Rightarrow> nat option" where
  "rfind_char ch [] = None"
| "rfind_char ch (x # xs) =
     (case rfind_char ch xs of
        Some j \<Rightarrow> Some (j + 1)
      | None \<Rightarrow> if x = ch then Some 0 else None)"

definition path_name :: "path \<Rightarrow> str" where
  "path_name p = (if p = [] then [] else last p)"

text \<open>
  \<open>Path.stem\<close> of pathlib: the name up to its last dot, when that dot is neither
  the first nor the last character of the name; the whole name otherwise.
\<close>

definition stem :: "path \<Rightarrow> str" where
  "stem p =
     (let name = path_name p in
      case rfind_char (of_char CHR ''.'') name of
        Some i \<Rightarrow> if 0 < i \<and> i + 1 < length name then take i name else name
      | None \<Rightarrow> name)"

definition parent :: "path \<Rightarrow> path" where
  "parent p = butlast p"

text \<open>\<open>Path(src_file_path).relative_to(Path('src'))\<close>, which raises ValueError.\<close>

definition relative_to_src :: "path \<Rightarrow> error + path" where
  "relative_to_src p =
     (case p of
        [] \<Rightarrow> Inl ValueError
      | d # rest \<Rightarrow> if d = ascii ''src'' then Inr rest else Inl ValueError)"

text \<open>\<open>test_dir / rel_path.parent / (rel_path.stem + '_tests.rs')\<close>.\<close>

definition test_file_path_of :: "path \<Rightarrow> path \<Rightarrow> path" where
  "test_file_path_of test_dir rel_path =
     test_dir @ parent rel_path @ [stem rel_path @ ascii ''_tests.rs'']"

text \<open>\<open>sep.join(parts)\<close>.\<close>

fun join_with :: "str \<Rightarrow> str list \<Rightarrow> str" where
  "join_with sep [] = []"
| "join_with sep [x] = x"
| "join_with sep (x # y # ys) = x @ sep @ join_with sep (y # ys)"

definition module_path_of :: "path \<Rightarrow> str" where
  "module_path_of rel_path =
     join_with (ascii ''::'')
       (filter (\<lambda>part. part \<noteq> ascii ''mod.rs'') (butlast rel_path) @
        (if stem rel_path \<noteq> ascii ''mod'' then [stem rel_path] else []))"

definition header :: "str \<Rightarrow> str list" where
  "header module_path =
     [ascii ''use betting_platform_native::'' @ module_path @ ascii ''::*;'' @ [NL],
      ln ''use solana_program::pubkey::Pubkey;'',
      ln ''use solana_program::clock::Clock;'',
      ln ''use solana_program::program_error::ProgramError;'',
      [NL]]"

text \<open>The loop variables of the test-function loop of \<open>create_test_file\<close>.\<close>

record fn_state =
  test_functions :: "str list list"
  in_test_fn :: bool
  current_fn :: "str list"
  indent_level :: int

text \<open>One iteration of \<open>for line in test_module\<close>.\<close>

definition collect_step :: "fn_state \<Rightarrow> str \<Rightarrow> fn_state" where
  "collect_step st line =
     (if py_in test_marker line
      then st\<lparr>in_test_fn := True, current_fn := [line]\<rparr>
      else if in_test_fn st
      then (let cur = current_fn st @ [line] in
            if py_in (ascii ''{'') line
            then st\<lparr>current_fn := cur, indent_level := indent_level st + brace_delta line\<rparr>
            else if py_in (ascii ''}'') line
            then (let lvl = indent_level st + brace_delta line in
                  if lvl = 0 \<and> py_in (ascii ''fn '') (concat cur)
                  then st\<lparr>test_functions := test_functions st @ [cur],
                          in_test_fn := False, current_fn := [], indent_level := lvl\<rparr>
                  else st\<lparr>current_fn := cur, indent_level := lvl\<rparr>)
            else st\<lparr>current_fn := cur\<rparr>)
      else st)"

definition init_fn_state :: fn_state where
  "init_fn_state =
     \<lparr>test_functions = [], in_test_fn = False, current_fn = [], indent_level = 0\<rparr>"

definition extract_test_functions :: "str list \<Rightarrow> str list list" where
  "extract_test_functions test_module =
     test_functions (foldl collect_step init_fn_state test_module)"

text \<open>The body of the inner loop that removes one level of indentation.\<close>

definition clean_line :: "str \<Rightarrow> str" where
  "clean_line line =
     (if \<not> is_blank line
      then (if startswith line (ascii ''    '') then drop 4 line else line)
      else line)"

text \<open>The list \<open>content\<close> that \<open>create_test_file\<close> hands to \<open>writelines\<close>.\<close>

definition test_file_content :: "path \<Rightarrow> str list \<Rightarrow> str list" where
  "test_file_content rel_path test_module =
     header (module_path_of rel_path) @
     concat (map (\<lambda>test_fn. map clean_line test_fn @ [[NL]])
                 (extract_test_functions test_module))"

section \<open>Files, and the functions that read and write them\<close>

text \<open>
  The file store maps a path to the text of the file, as Python's text mode presents
  it. \<open>open\<close> raises \<open>OSError\<close> on a missing or unreadable file and on a file that
  cannot be written; creating the directories of a path can fail likewise. Every
  write and every message printed by \<open>main\<close> is appended to a log, in order.
\<close>

datatype event =
    Wrote path
  | FindingTestModules
  | FoundFiles nat
  | Processing path
  | CreatedTestFile path
  | RemovedTestModule
  | NoTestModuleFound
  | ProcessedFiles nat

record fs =
  files :: "path \<rightharpoonup> str"
  unreadable :: "path set"
  unwritable :: "path set"
  log :: "event list"

definition open_read :: "fs \<Rightarrow> path \<Rightarrow> error + str" where
  "open_read s p =
     (case files s p of
        None \<Rightarrow> Inl (OSError p)
      | Some text \<Rightarrow> if p \<in> unreadable s then Inl (OSError p) else Inr text)"

text \<open>\<open>with open(p, 'w') as f: f.writelines(ls)\<close>: the file becomes the concatenation.\<close>

definition open_write :: "fs \<Rightarrow> path \<Rightarrow> str list \<Rightarrow> error + fs" where
  "open_write s p ls =
     (if p \<in> unwritable s then Inl (OSError p)
      else Inr (s\<lparr>files := (files s)(p \<mapsto> concat ls), log := log s @ [Wrote p]\<rparr>))"

text \<open>\<open>d.mkdir(parents=True, exist_ok=True)\<close>; directories themselves are not tracked.\<close>

definition mkdir_parents :: "fs \<Rightarrow> path \<Rightarrow> error + unit" where
  "mkdir_parents s d = (if d \<in> unwritable s then Inl (OSError d) else Inr ())"

definition print :: "fs \<Rightarrow> event \<Rightarrow> fs" where
  "print s e = s\<lparr>log := log s @ [e]\<rparr>"

text \<open>\<open>f.readlines()\<close>: the text cut after every newline.\<close>

fun split_lines :: "str \<Rightarrow> str \<Rightarrow> str list" where
  "split_lines acc [] = (if acc = [] then [] else [acc])"
| "split_lines acc (c # cs) =
     (if c = NL then (acc @ [c]) # split_lines [] cs else split_lines (acc @ [c]) cs)"

definition readlines :: "str \<Rightarrow> str list" where
  "readlines text = split_lines [] text"

definition endswith :: "str \<Rightarrow> str \<Rightarrow> bool" where
  "endswith s suf = startswith (rev s) (rev suf)"

text \<open>
  \<open>find_test_modules\<close>. The argument \<open>tree\<close> is the sequence of file paths that
  \<open>os.walk(src_dir)\<close> yields, each already joined with its directory.
\<close>

fun find_from :: "fs \<Rightarrow> path list \<Rightarrow> path list \<Rightarrow> error + path list" where
  "find_from s [] test_files = Inr test_files"
| "find_from s (file_path # rest) test_files =
     (if endswith (path_name file_path) (ascii ''.rs'')
      then (case open_read s file_path of
              Inl e \<Rightarrow> Inl e
            | Inr content \<Rightarrow>
                if py_in cfg_marker content \<and> py_in mod_tests content
                then find_from s rest (test_files @ [file_path])
                else find_from s rest test_files)
      else find_from s rest test_files)"

definition find_test_modules :: "fs \<Rightarrow> path list \<Rightarrow> error + path list" where
  "find_test_modules s tree = find_from s tree []"

definition extract_test_module ::
  "fs \<Rightarrow> path \<Rightarrow> error + (str list option \<times> str list)" where
  "extract_test_module s file_path =
     (case open_read s file_path of
        Inl e \<Rightarrow> Inl e
      | Inr text \<Rightarrow> Inr (extract_lines (readlines text)))"

definition create_test_file :: "fs \<Rightarrow> path \<Rightarrow> str list \<Rightarrow> path \<Rightarrow> error + (path \<times> fs)" where
  "create_test_file s src_file_path test_module test_dir =
     (case relative_to_src src_file_path of
        Inl e \<Rightarrow> Inl e
      | Inr rel_path \<Rightarrow>
          (let test_file_path = test_file_path_of test_dir rel_path in
           case mkdir_parents s (parent test_file_path) of
             Inl e \<Rightarrow> Inl e
           | Inr _ \<Rightarrow>
               (case open_write s test_file_path (test_file_content rel_path test_module) of
                  Inl e \<Rightarrow> Inl e
                | Inr s' \<Rightarrow> Inr (test_file_path, s'))))"

text \<open>
  The body of the loop of \<open>main\<close> for one file. An exception leaves the store as it is
  at that moment: the result pairs the store with the error raised, if any, and with
  whether \<open>processed\<close> was incremented.
\<close>

definition process_file :: "fs \<Rightarrow> path \<Rightarrow> (error + bool) \<times> fs" where
  "process_file s file_path =
     (let s1 = print s (Processing file_path) in
      case extract_test_module s1 file_path of
        Inl e \<Rightarrow> (Inl e, s1)
      | Inr (test_module, remaining_lines) \<Rightarrow>
          (case test_module of
             None \<Rightarrow> (Inr False, print s1 NoTestModuleFound)
           | Some tm \<Rightarrow>
               if tm \<noteq> []
               then (case create_test_file s1 file_path tm [ascii ''tests''] of
                       Inl e \<Rightarrow> (Inl e, s1)
                     | Inr (test_file_path, s2) \<Rightarrow>
                         (let s3 = print s2 (CreatedTestFile test_file_path) in
                          case open_write s3 file_path remaining_lines of
                            Inl e \<Rightarrow> (Inl e, s3)
                          | Inr s4 \<Rightarrow> (Inr True, print s4 RemovedTestModule)))
               else (Inr False, print s1 NoTestModuleFound)))"

fun process_all :: "fs \<Rightarrow> path list \<Rightarrow> nat \<Rightarrow> (error + nat) \<times> fs" where
  "process_all s [] processed = (Inr processed, s)"
| "process_all s (file_path # rest) processed =
     (case process_file s file_path of
        (Inl e, s') \<Rightarrow> (Inl e, s')
      | (Inr done, s') \<Rightarrow> process_all s' rest (if done then processed + 1 else processed))"

definition main :: "path list \<Rightarrow> fs \<Rightarrow> error option \<times> fs" where
  "main tree s =
     (let s0 = print s FindingTestModules in
      case find_test_modules s0 tree of
        Inl e \<Rightarrow> (Some e, s0)
      | Inr test_files \<Rightarrow>
          (case process_all (print s0 (FoundFiles (length test_files))) test_files 0 of
             (Inl e, s') \<Rightarrow> (Some e, s')
           | (Inr processed, s') \<Rightarrow> (None, print s' (ProcessedFiles processed))))"

section \<open>The balanced-block matcher as the specification words it\<close>

text \<open>
  Written from the specification's description of the matcher, to be compared with
  \<open>scan_block\<close>: the first line with an opening delimiter sets the balance to 1; every
  later line adds its opening count minus its closing count; the first line at which
  the balance is zero is the end line; reaching the end of the file is a failed match.
\<close>

fun spec_scan :: "nat \<Rightarrow> str list \<Rightarrow> int \<Rightarrow> bool \<Rightarrow> nat option" where
  "spec_scan i [] balance inside = None"
| "spec_scan i (line # rest) balance inside =
     (if \<not> inside
      then (if py_in (ascii ''{'') line then spec_scan (i + 1) rest 1 True
            else spec_scan (i + 1) rest balance False)
      else (let b = balance + brace_delta line in
            if b = 0 then Some i else spec_scan (i + 1) rest b True))"

definition spec_match :: "str list \<Rightarrow> nat \<Rightarrow> nat option" where
  "spec_match lines start = spec_scan start (drop start lines) 0 False"

section \<open>Notions used to state the properties\<close>

text \<open>The guard of the first branch of the brace-counting loop.\<close>

definition arms :: "str \<Rightarrow> bool" where
  "arms line = (py_in mod_tests line \<and> py_in (ascii ''{'') line)"

text \<open>
  The brace-counting loop has left through its \<open>break\<close> exactly when it ends inside the
  module with a count of zero.
\<close>

definition stopped :: "scan_state \<Rightarrow> bool" where
  "stopped st = (in_test_module st \<and> brace_count st = 0)"

text \<open>The delimiter balance of a run of lines: opening minus closing braces.\<close>

definition balance :: "str list \<Rightarrow> int" where
  "balance ls = sum_list (map brace_delta ls)"




section \<open>Example files\<close>

text \<open>A function, a blank line, and a test module that closes on the last line.\<close>

definition file_blank_before :: "str list" where
  "file_blank_before =
     [ln ''fn x() {}'',
      [NL],
      ln ''#[cfg(test)]'',
      ln ''mod tests {'',
      ln ''}'']"


text \<open>A module whose opening brace stands on a line of its own.\<close>

definition file_brace_next_line :: "str list" where
  "file_brace_next_line =
     [ln ''#[cfg(test)]'',
      ln ''mod tests'',
      ln ''{'',
      ln ''}'']"



text \<open>A module that is not closed before the end of the file.\<close>

definition file_unterminated :: "str list" where
  "file_unterminated =
     [ln ''#[cfg(test)]'',
      ln ''mod tests {'',
      ln ''    fn helper() {'']"


text \<open>A store that holds the given files, all readable and writable, with an empty log.\<close>

definition store_of :: "(path \<times> str list) list \<Rightarrow> fs" where
  "store_of kvs =
     \<lparr>files = map_of (map (\<lambda>(p, ls). (p, concat ls)) kvs),
      unreadable = {}, unwritable = {}, log = []\<rparr>"

definition lib_rs :: path where
  "lib_rs = [ascii ''src'', ascii ''lib.rs'']"

definition lib_tests_rs :: path where
  "lib_tests_rs = [ascii ''tests'', ascii ''lib_tests.rs'']"

section \<open>Basic facts about the loops\<close>

lemma find_start_from_bounds:
  "find_start_from lines i suf = Some s \<Longrightarrow> i \<le> s \<and> s < i + length suf"
proof (induction suf arbitrary: i)
  case Nil
  then show ?case by simp
next
  case (Cons line rest)
  show ?case
  proof (cases "find_start_from lines i (line # rest) = Some i")
    case True
    with Cons.prems show ?thesis by simp
  next
    case False
    with Cons.prems have "find_start_from lines (i + 1) rest = Some s"
      by (simp split: if_splits)
    from Cons.IH [OF this] show ?thesis by simp
  qed
qed

lemma find_test_start_less:
  "find_test_start lines = Some s \<Longrightarrow> s < length lines"
  using find_start_from_bounds [of lines 0 lines s] by (simp add: find_test_start_def)

lemma scan_block_arm:
  "arms line \<Longrightarrow> scan_block i (line # rest) st =
     scan_block (i + 1) rest \<lparr>brace_count = 1, test_end = i, in_test_module = True\<rparr>"
  by (simp add: arms_def)

lemma scan_block_stop:
  "\<not> arms line \<Longrightarrow> in_test_module st \<Longrightarrow> brace_count st + brace_delta line = 0 \<Longrightarrow>
   scan_block i (line # rest) st = st\<lparr>brace_count := 0, test_end := i\<rparr>"
  by (auto simp: arms_def Let_def)

lemma scan_block_go:
  "\<not> arms line \<Longrightarrow> in_test_module st \<Longrightarrow> brace_count st + brace_delta line \<noteq> 0 \<Longrightarrow>
   scan_block i (line # rest) st =
     scan_block (i + 1) rest (st\<lparr>brace_count := brace_count st + brace_delta line\<rparr>)"
  by (auto simp: arms_def Let_def)

lemma scan_block_skip:
  "\<not> arms line \<Longrightarrow> \<not> in_test_module st \<Longrightarrow>
   scan_block i (line # rest) st = scan_block (i + 1) rest st"
  by (auto simp: arms_def)

declare scan_block.simps(2) [simp del]

lemma scan_block_cases:
  obtains (arm) "arms line"
  | (stop) "\<not> arms line" "in_test_module (st::scan_state)" "brace_count st + brace_delta line = 0"
  | (go) "\<not> arms line" "in_test_module st" "brace_count st + brace_delta line \<noteq> 0"
  | (skip) "\<not> arms line" "\<not> in_test_module st"
  by blast

lemma scan_block_end_bounds:
  "test_end (scan_block i suf st) = test_end st \<or>
   (i \<le> test_end (scan_block i suf st) \<and> test_end (scan_block i suf st) < i + length suf)"
proof (induction suf arbitrary: i st)
  case Nil
  then show ?case by simp
next
  case (Cons line rest)
  show ?case
  proof (cases rule: scan_block_cases [where line = line and st = st])
    case arm
    from Cons.IH [of "i + 1" "\<lparr>brace_count = 1, test_end = i, in_test_module = True\<rparr>"]
    show ?thesis unfolding scan_block_arm [OF arm] by auto
  next
    case stop
    show ?thesis unfolding scan_block_stop [OF stop] by simp
  next
    case go
    from Cons.IH [of "i + 1" "st\<lparr>brace_count := brace_count st + brace_delta line\<rparr>"]
    show ?thesis unfolding scan_block_go [OF go] by auto
  next
    case skip
    from Cons.IH [of "i + 1" st]
    show ?thesis unfolding scan_block_skip [OF skip] by auto
  qed
qed

lemma find_test_end_bounds:
  assumes "s < length lines"
  shows "s \<le> test_end (find_test_end lines s) \<and> test_end (find_test_end lines s) < length lines"
  using scan_block_end_bounds [of s "drop s lines"
          "\<lparr>brace_count = 0, test_end = s, in_test_module = False\<rparr>"] assms
  by (auto simp: find_test_end_def)

lemma pop_blank_tail_rev: "pop_blank_tail ls = rev (dropWhile is_blank (rev ls))"
proof (induction ls rule: rev_induct)
  case Nil
  then show ?case by (simp add: pop_blank_tail.simps)
next
  case (snoc x xs)
  then show ?case by (subst pop_blank_tail.simps) simp
qed

lemma pop_blank_tail_length: "length (pop_blank_tail ls) \<le> length ls"
  using length_dropWhile_le [of is_blank "rev ls"] by (simp add: pop_blank_tail_rev)

lemma pop_blank_tail_id: "(pop_blank_tail ls = ls) = (ls = [] \<or> \<not> is_blank (last ls))"
proof (cases ls rule: rev_cases)
  case Nil
  then show ?thesis by (simp add: pop_blank_tail.simps)
next
  case (snoc xs x)
  show ?thesis
  proof (cases "is_blank x")
    case True
    have "length (pop_blank_tail xs) \<le> length xs" by (rule pop_blank_tail_length)
    then have "pop_blank_tail xs \<noteq> xs @ [x]" by auto
    with True snoc show ?thesis by (subst pop_blank_tail.simps) simp
  next
    case False
    with snoc show ?thesis by (subst pop_blank_tail.simps) simp
  qed
qed

lemma slice_split:
  assumes "s \<le> e" "e < length xs"
  shows "xs = take s xs @ slice xs s (e + 1) @ drop (e + 1) xs"
    and "length (slice xs s (e + 1)) = e + 1 - s"
proof -
  have "drop s xs = take (e + 1 - s) (drop s xs) @ drop (e + 1 - s) (drop s xs)"
    by (rule append_take_drop_id [symmetric])
  moreover have "drop (e + 1 - s) (drop s xs) = drop (e + 1) xs"
    using assms by (simp add: add.commute)
  ultimately have "drop s xs = slice xs s (e + 1) @ drop (e + 1) xs"
    by (simp add: slice_def)
  then have "take s xs @ drop s xs = take s xs @ slice xs s (e + 1) @ drop (e + 1) xs"
    by simp
  then show "xs = take s xs @ slice xs s (e + 1) @ drop (e + 1) xs" by simp
  show "length (slice xs s (e + 1)) = e + 1 - s" using assms by (simp add: slice_def)
qed

lemma extract_lines_split:
  assumes "extract_lines lines = (Some tm, rem)"
  shows "\<exists>pre post. lines = pre @ tm @ post \<and> tm \<noteq> [] \<and> rem = pop_blank_tail (pre @ post)
           \<and> find_test_start lines = Some (length pre)
           \<and> test_end (find_test_end lines (length pre)) + 1 = length pre + length tm"
proof -
  from assms obtain s where s: "find_test_start lines = Some s"
    by (auto simp: extract_lines_def split: option.splits)
  define e where "e = test_end (find_test_end lines s)"
  from s have sl: "s < length lines" by (rule find_test_start_less)
  from find_test_end_bounds [OF sl] have se: "s \<le> e" and el: "e < length lines"
    by (simp_all add: e_def)
  from assms s have tm: "tm = slice lines s (e + 1)"
    and rem: "rem = pop_blank_tail (take s lines @ drop (e + 1) lines)"
    by (simp_all add: extract_lines_def Let_def e_def)
  note sp = slice_split [OF se el]
  have lp: "length (take s lines) = s" using sl by simp
  have c1: "lines = take s lines @ tm @ drop (e + 1) lines" using sp(1) by (simp add: tm)
  have c2: "tm \<noteq> []" using sp(2) se by (auto simp: tm)
  have c5: "test_end (find_test_end lines s) + 1 = s + length tm"
    using sp(2) se by (simp add: tm e_def)
  show ?thesis
    apply (rule exI [of _ "take s lines"])
    apply (rule exI [of _ "drop (e + 1) lines"])
    using c1 c2 rem s c5 lp by simp
qed

lemma pop_blank_tail_prefix: "\<exists>zs. ls = pop_blank_tail ls @ zs"
proof -
  have "rev (dropWhile is_blank (rev ls)) @ rev (takeWhile is_blank (rev ls)) =
        rev (takeWhile is_blank (rev ls) @ dropWhile is_blank (rev ls))"
    by (simp only: rev_append)
  also have "\<dots> = ls" by (simp only: takeWhile_dropWhile_id rev_rev_ident)
  finally have "ls = pop_blank_tail ls @ rev (takeWhile is_blank (rev ls))"
    by (simp only: pop_blank_tail_rev)
  then show ?thesis ..
qed

section \<open>C2: line count of block and remainder\<close>

text \<open>
  C2, as amended. When \<open>extract_test_module\<close> detects a test block, the original lines
  are the lines before the block, the block, and the lines after it; the block together
  with the remainder \<^emph>\<open>before\<close> its trailing blank lines are popped has exactly the
  original line count. The returned remainder is that list with the trailing blank
  lines removed, so block plus returned remainder never exceeds the original count and
  equals it exactly when the unstripped remainder is empty or ends in a non-blank line.
\<close>

theorem extract_lines_line_count:
  assumes "extract_lines lines = (Some test_module, remaining_lines)"
  shows "\<exists>pre post.
           lines = pre @ test_module @ post \<and>
           remaining_lines = pop_blank_tail (pre @ post) \<and>
           length test_module + length (pre @ post) = length lines \<and>
           length test_module + length remaining_lines \<le> length lines \<and>
           ((length test_module + length remaining_lines = length lines) =
            (pre @ post = [] \<or> \<not> is_blank (last (pre @ post))))"
proof -
  from extract_lines_split [OF assms] obtain pre post where
    sp: "lines = pre @ test_module @ post" and rem: "remaining_lines = pop_blank_tail (pre @ post)"
    by blast
  have "length lines = length (pre @ test_module @ post)" using sp by simp
  then have len: "length test_module + length (pre @ post) = length lines" by simp
  have le: "length remaining_lines \<le> length (pre @ post)"
    unfolding rem by (rule pop_blank_tail_length)
  from pop_blank_tail_prefix [of "pre @ post"] obtain zs where
    zs: "pre @ post = remaining_lines @ zs" unfolding rem by blast
  have "length (pre @ post) = length remaining_lines + length zs"
    by (subst zs) simp
  then have "(length remaining_lines = length (pre @ post)) = (remaining_lines = pre @ post)"
    using zs by auto
  then have eq: "(length test_module + length remaining_lines = length lines) =
      (pre @ post = [] \<or> \<not> is_blank (last (pre @ post)))"
    using len pop_blank_tail_id [of "pre @ post"] rem by auto
  from sp rem len le eq show ?thesis
    by (intro exI [of _ pre] exI [of _ post]) auto
qed

text \<open>
  The claim as first stated fails where a blank line ends the remainder: the block has
  three lines and the returned remainder one, of a file of five.
\<close>

theorem extract_lines_line_count_counterexample:
  "fst (extract_lines file_blank_before) =
     Some [ln ''#[cfg(test)]'', ln ''mod tests {'', ln ''}''] \<and>
   snd (extract_lines file_blank_before) = [ln ''fn x() {}''] \<and>
   length (the (fst (extract_lines file_blank_before))) +
     length (snd (extract_lines file_blank_before)) \<noteq> length file_blank_before"
  by code_simp

theorem extract_lines_line_count_witness:
  "extract_lines file_blank_before =
     (Some [ln ''#[cfg(test)]'', ln ''mod tests {'', ln ''}''], [ln ''fn x() {}'']) \<and>
   (\<exists>pre post.
      file_blank_before = pre @ [ln ''#[cfg(test)]'', ln ''mod tests {'', ln ''}''] @ post \<and>
      [ln ''fn x() {}''] = pop_blank_tail (pre @ post) \<and>
      length [ln ''#[cfg(test)]'', ln ''mod tests {'', ln ''}''] + length (pre @ post)
        = length file_blank_before)"
proof -
  have h: "extract_lines file_blank_before =
     (Some [ln ''#[cfg(test)]'', ln ''mod tests {'', ln ''}''], [ln ''fn x() {}''])"
    by code_simp
  from extract_lines_line_count [OF h] h show ?thesis by blast
qed

lemma balance_simps [simp]:
  "balance [] = 0"
  "balance (l # ls) = brace_delta l + balance ls"
  "balance (xs @ ys) = balance xs + balance ys"
  by (simp_all add: balance_def)
















section \<open>C3: the delimiter balance of a matched span\<close>




section \<open>C6: the matcher against its description\<close>

text \<open>
  C6. The described matcher starts with a balance of zero, sets it to 1 at the first line
  with an opening brace, adds the opening minus closing braces of every later line and
  ends the span on the first line where the balance is zero again. On a module whose
  opening brace stands on the line after \<open>mod tests\<close>, that is line 3, the closing
  brace. The loop of \<open>extract_test_module\<close> enters the module only on a line that holds
  both \<open>mod tests\<close> and an opening brace: on this file it never does, the end line stays
  at the start line, the extracted module is the \<open>#[cfg(test)]\<close> line alone, and
  \<open>main\<close> writes a destination file that holds only the header and takes the attribute
  line out of the source.
\<close>

theorem matcher_brace_on_next_line:
  "find_test_start file_brace_next_line = Some 0 \<and>
   spec_match file_brace_next_line 0 = Some 3 \<and>
   test_end (find_test_end file_brace_next_line 0) = 0 \<and>
   \<not> in_test_module (find_test_end file_brace_next_line 0) \<and>
   extract_lines file_brace_next_line =
     (Some [ln ''#[cfg(test)]''], [ln ''mod tests'', ln ''{'', ln ''}'']) \<and>
   fst (main [lib_rs] (store_of [(lib_rs, file_brace_next_line)])) = None \<and>
   files (snd (main [lib_rs] (store_of [(lib_rs, file_brace_next_line)]))) lib_rs =
     Some (concat [ln ''mod tests'', ln ''{'', ln ''}'']) \<and>
   files (snd (main [lib_rs] (store_of [(lib_rs, file_brace_next_line)]))) lib_tests_rs =
     Some (concat (header (ascii ''lib'')))"
  by code_simp

section \<open>C1: a block that is not closed before the end of the file\<close>

text \<open>
  C1. The claim: when a test block is detected and the balance never returns to zero
  before the end of the file, the match fails and the file is left as it is. On a file
  whose module is not closed, the loop of \<open>extract_test_module\<close> reaches the end of
  the file without a zero count, and the function returns the lines up to the
  \<open>mod tests\<close> line as the module all the same; \<open>main\<close> completes without an error,
  writes a destination file that holds only the header, and overwrites the source with
  the lines that followed the \<open>mod tests\<close> line.
\<close>

theorem unterminated_block_is_cut:
  "find_test_start file_unterminated = Some 0 \<and>
   \<not> stopped (find_test_end file_unterminated 0) \<and>
   extract_lines file_unterminated =
     (Some [ln ''#[cfg(test)]'', ln ''mod tests {''], [ln ''    fn helper() {'']) \<and>
   fst (main [lib_rs] (store_of [(lib_rs, file_unterminated)])) = None \<and>
   files (store_of [(lib_rs, file_unterminated)]) lib_rs = Some (concat file_unterminated) \<and>
   files (snd (main [lib_rs] (store_of [(lib_rs, file_unterminated)]))) lib_rs =
     Some (ln ''    fn helper() {'') \<and>
   files (snd (main [lib_rs] (store_of [(lib_rs, file_unterminated)]))) lib_tests_rs =
     Some (concat (header (ascii ''lib''))) \<and>
   log (snd (main [lib_rs] (store_of [(lib_rs, file_unterminated)]))) =
     [FindingTestModules, FoundFiles 1, Processing lib_rs, Wrote lib_tests_rs,
      CreatedTestFile lib_tests_rs, Wrote lib_rs, RemovedTestModule, ProcessedFiles 1]"
  by code_simp

lemma startswith_iff: "startswith s p = (\<exists>t. s = p @ t)"
  by (induction s p rule: startswith.induct) auto

lemma endswith_iff: "endswith s suf = (\<exists>t. s = t @ suf)"
proof -
  have "(\<exists>t. rev s = rev suf @ t) = (\<exists>t. s = t @ suf)"
  proof
    assume "\<exists>t. rev s = rev suf @ t"
    then obtain t where "rev s = rev suf @ t" ..
    then have "rev (rev s) = rev (rev suf @ t)" by (rule arg_cong)
    then have "s = rev t @ suf" by simp
    then show "\<exists>t. s = t @ suf" ..
  next
    assume "\<exists>t. s = t @ suf"
    then obtain t where "s = t @ suf" ..
    then have "rev s = rev suf @ rev t" by simp
    then show "\<exists>t. rev s = rev suf @ t" ..
  qed
  then show ?thesis by (simp add: endswith_def startswith_iff)
qed

lemma rfind_char_last:
  "ch \<notin> set ys \<Longrightarrow> rfind_char ch (xs @ ch # ys) = Some (length xs)"
proof (induction xs)
  case Nil
  have "rfind_char ch ys = None" using Nil by (induction ys) auto
  then show ?case by simp
next
  case (Cons x xs)
  then show ?case by simp
qed

lemma stem_rs:
  assumes "p \<noteq> []" "last p = s @ ascii ''.rs''"
  shows "stem p = (if s = [] then (ascii ''.rs'') else s)"
proof -
  have rs: "(ascii ''.rs'') = of_char CHR ''.'' # ascii ''rs''"
    by (simp add: ascii_def)
  have "rfind_char (of_char CHR ''.'') (s @ of_char CHR ''.'' # ascii ''rs'') = Some (length s)"
    by (rule rfind_char_last) (simp add: ascii_def)
  then show ?thesis using assms by (simp add: stem_def path_name_def Let_def rs) (simp add: ascii_def)
qed

section \<open>C10: destination paths\<close>

text \<open>
  C10, as amended. The destination path is a function of the source path relative to
  \<open>src\<close>: the mirrored parent directory and the stem suffixed with \<open>_tests.rs\<close>. On
  source files whose name ends in \<open>.rs\<close> (the only ones \<open>find_test_modules\<close> selects)
  and is not the bare name \<open>.rs\<close>, it is injective: two distinct source paths have two
  distinct destination paths.
\<close>

theorem destination_path_injective:
  assumes "relative_to_src src_p = Inr p" "relative_to_src src_q = Inr q"
    and "p \<noteq> []" "q \<noteq> []"
    and "endswith (path_name p) (ascii ''.rs'')" "endswith (path_name q) (ascii ''.rs'')"
    and "path_name p \<noteq> ascii ''.rs''" "path_name q \<noteq> ascii ''.rs''"
    and "src_p \<noteq> src_q"
  shows "test_file_path_of test_dir p \<noteq> test_file_path_of test_dir q"
proof
  assume eq: "test_file_path_of test_dir p = test_file_path_of test_dir q"
  from assms(1) have sp: "src_p = ascii ''src'' # p"
    by (auto simp: relative_to_src_def split: list.splits if_splits)
  from assms(2) have sq: "src_q = ascii ''src'' # q"
    by (auto simp: relative_to_src_def split: list.splits if_splits)
  from assms(3,5,7) obtain s where s: "last p = s @ ascii ''.rs''" "s \<noteq> []"
    by (auto simp: endswith_iff path_name_def)
  from assms(4,6,8) obtain t where t: "last q = t @ ascii ''.rs''" "t \<noteq> []"
    by (auto simp: endswith_iff path_name_def)
  have stp: "stem p = s" using stem_rs [OF assms(3) s(1)] s(2) by simp
  have stq: "stem q = t" using stem_rs [OF assms(4) t(1)] t(2) by simp
  from eq have "butlast p @ [s @ ascii ''_tests.rs''] = butlast q @ [t @ ascii ''_tests.rs'']"
    by (simp add: test_file_path_of_def parent_def stp stq)
  then have "butlast p = butlast q" and "s = t" by simp_all
  then have "butlast p @ [last p] = butlast q @ [last q]" using s(1) t(1) by simp
  then have "p = q" using assms(3,4) by simp
  with sp sq assms(9) show False by simp
qed

text \<open>
  The claim as first stated fails on a file whose whole name is \<open>.rs\<close>: its stem is the
  name itself, which is also the stem of \<open>.rs.rs\<close> in the same directory.
\<close>

theorem destination_path_injective_counterexample:
  "relative_to_src [ascii ''src'', ascii ''.rs''] = Inr [ascii ''.rs''] \<and>
   relative_to_src [ascii ''src'', ascii ''.rs.rs''] = Inr [ascii ''.rs.rs''] \<and>
   endswith (path_name [ascii ''.rs'']) (ascii ''.rs'') \<and>
   endswith (path_name [ascii ''.rs.rs'']) (ascii ''.rs'') \<and>
   [ascii ''src'', ascii ''.rs''] \<noteq> [ascii ''src'', ascii ''.rs.rs''] \<and>
   test_file_path_of [ascii ''tests''] [ascii ''.rs''] = test_file_path_of [ascii ''tests''] [ascii ''.rs.rs'']"
  by code_simp

theorem destination_path_injective_witness:
  "relative_to_src [ascii ''src'', ascii ''a'', ascii ''mod.rs''] = Inr [ascii ''a'', ascii ''mod.rs''] \<and>
   relative_to_src [ascii ''src'', ascii ''a.rs''] = Inr [ascii ''a.rs''] \<and>
   test_file_path_of [ascii ''tests''] [ascii ''a'', ascii ''mod.rs''] = [ascii ''tests'', ascii ''a'', ascii ''mod_tests.rs''] \<and>
   test_file_path_of [ascii ''tests''] [ascii ''a.rs''] = [ascii ''tests'', ascii ''a_tests.rs''] \<and>
   test_file_path_of [ascii ''tests''] [ascii ''a'', ascii ''mod.rs''] \<noteq> test_file_path_of [ascii ''tests''] [ascii ''a.rs'']"
proof -
  have a: "relative_to_src [ascii ''src'', ascii ''a'', ascii ''mod.rs''] = Inr [ascii ''a'', ascii ''mod.rs'']" by code_simp
  have b: "relative_to_src [ascii ''src'', ascii ''a.rs''] = Inr [ascii ''a.rs'']" by code_simp
  have c: "endswith (path_name [ascii ''a'', ascii ''mod.rs'']) (ascii ''.rs'')" by code_simp
  have d: "endswith (path_name [ascii ''a.rs'']) (ascii ''.rs'')" by code_simp
  have e: "path_name [ascii ''a'', ascii ''mod.rs''] \<noteq> ascii ''.rs''" by code_simp
  have f: "path_name [ascii ''a.rs''] \<noteq> ascii ''.rs''" by code_simp
  have g: "test_file_path_of [ascii ''tests''] [ascii ''a'', ascii ''mod.rs''] = [ascii ''tests'', ascii ''a'', ascii ''mod_tests.rs'']"
    by code_simp
  have h: "test_file_path_of [ascii ''tests''] [ascii ''a.rs''] = [ascii ''tests'', ascii ''a_tests.rs'']" by code_simp
  from destination_path_injective [OF a b _ _ c d e f, of "[ascii ''tests'']"] a b g h
  show ?thesis by simp
qed

end
